theory Spec2Isabelle
  imports Complex_Main "HOL-Library.Sublist"
begin

section \<open>Shared data: bytes, exceptions\<close>

text \<open>
  A Python \<open>bytes\<close> object is a list of 8-bit characters; the literal
  \<open>b'PK\x03\x04'\<close> is \<open>[CHR ''P'', CHR ''K'', CHR 0x03, CHR 0x04]\<close>.
  Every exception the modelled functions can raise is a constructor of \<open>py_error\<close>,
  and a function that can raise returns \<open>py_error + 'a\<close>.
\<close>

type_synonym bytes = "char list"

datatype py_error =
    FileNotFoundError
  | StopIteration
  | KeyError
  | ZeroDivisionError
  | TypeError
  | ValueError
  | LookupError
  | IOError
  | EncodingException
  | csv_Error

section \<open>The \<open>FileType\<close> enumeration (file\_type\_analyzer.py)\<close>

datatype FileType =
    UNKNOWN | PDF | EXCEL_LEGACY | EXCEL | CSV | JSON | ZIP | GZIP | TAR | XML
  | HTML | TEXT | JSONL | TSV | PIPE | FIXED_WIDTH | NUMBERS | PAGES

text \<open>Iteration over the enumeration follows the order of declaration.\<close>

definition all_file_types :: "FileType list" where
  "all_file_types =
     [UNKNOWN, PDF, EXCEL_LEGACY, EXCEL, CSV, JSON, ZIP, GZIP, TAR, XML,
      HTML, TEXT, JSONL, TSV, PIPE, FIXED_WIDTH, NUMBERS, PAGES]"

fun file_extension :: "FileType \<Rightarrow> string" where
  "file_extension UNKNOWN = ''''"
| "file_extension PDF = ''.pdf''"
| "file_extension EXCEL_LEGACY = ''.xls''"
| "file_extension EXCEL = ''.xlsx''"
| "file_extension CSV = ''.csv''"
| "file_extension JSON = ''.json''"
| "file_extension ZIP = ''.zip''"
| "file_extension GZIP = ''.gz''"
| "file_extension TAR = ''.tar''"
| "file_extension XML = ''.xml''"
| "file_extension HTML = ''.html''"
| "file_extension TEXT = ''.txt''"
| "file_extension JSONL = ''.jsonl''"
| "file_extension TSV = ''.tsv''"
| "file_extension PIPE = ''.pipe''"
| "file_extension FIXED_WIDTH = ''.fixed_width''"
| "file_extension NUMBERS = ''.numbers''"
| "file_extension PAGES = ''.pages''"

fun description :: "FileType \<Rightarrow> string" where
  "description UNKNOWN = ''An unknown file type''"
| "description PDF = ''A PDF file''"
| "description EXCEL_LEGACY = ''An Excel file''"
| "description EXCEL = ''An Excel file''"
| "description CSV = ''A CSV file''"
| "description JSON = ''A JSON file''"
| "description ZIP = ''A ZIP file''"
| "description GZIP = ''A GZIP file''"
| "description TAR = ''A TAR file''"
| "description XML = ''An XML file''"
| "description HTML = ''An HTML file''"
| "description TEXT = ''A text file''"
| "description JSONL = ''A JSON Lines file''"
| "description TSV = ''A TSV file''"
| "description PIPE = ''A pipe-delimited file''"
| "description FIXED_WIDTH = ''A fixed width file''"
| "description NUMBERS = ''Mac Numbers file''"
| "description PAGES = ''Mac Pages file''"

fun byte_signature :: "FileType \<Rightarrow> bytes" where
  "byte_signature PDF = [CHR ''%'', CHR ''P'', CHR ''D'', CHR ''F'']"
| "byte_signature EXCEL_LEGACY =
     [CHR 0xD0, CHR 0xCF, CHR 0x11, CHR 0xE0, CHR 0xA1, CHR 0xB1, CHR 0x1A, CHR 0xE1]"
| "byte_signature EXCEL = [CHR 0x50, CHR 0x4B, CHR 0x03, CHR 0x04]"
| "byte_signature ZIP = [CHR ''P'', CHR ''K'', CHR 0x03, CHR 0x04]"
| "byte_signature GZIP = [CHR 0x1F, CHR 0x8B]"
| "byte_signature _ = []"

fun is_text :: "FileType \<Rightarrow> bool" where
  "is_text CSV = True"
| "is_text JSON = True"
| "is_text XML = True"
| "is_text HTML = True"
| "is_text TEXT = True"
| "is_text JSONL = True"
| "is_text TSV = True"
| "is_text PIPE = True"
| "is_text FIXED_WIDTH = True"
| "is_text _ = False"

text \<open>The optional \<open>'delimiter'\<close> key of a member's value dictionary.\<close>

fun delimiter_key :: "FileType \<Rightarrow> char option" where
  "delimiter_key CSV = Some CHR '',''"
| "delimiter_key TSV = Some CHR 0x09"
| "delimiter_key PIPE = Some CHR ''|''"
| "delimiter_key _ = None"

text \<open>
  A member's value is its dictionary; two dictionaries are equal when they have the same
  keys with the same values. \<open>FileType.__eq__\<close> compares the values of the two members,
  \<open>__ne__\<close> negates it, and \<open>is\<close> compares the members themselves.
\<close>

definition ft_value :: "FileType \<Rightarrow> string \<times> string \<times> bytes \<times> bool \<times> char option" where
  "ft_value ft =
     (file_extension ft, description ft, byte_signature ft, is_text ft, delimiter_key ft)"

definition ft_eq :: "FileType \<Rightarrow> FileType \<Rightarrow> bool" where
  "ft_eq a b = (ft_value a = ft_value b)"

definition ft_ne :: "FileType \<Rightarrow> FileType \<Rightarrow> bool" where
  "ft_ne a b = (\<not> ft_eq a b)"

text \<open>\<open>FileType.from_extension\<close>: the first member whose extension is the suffix.\<close>

fun from_extension_loop :: "FileType list \<Rightarrow> string \<Rightarrow> FileType" where
  "from_extension_loop [] sfx = UNKNOWN"
| "from_extension_loop (ft # fts) sfx =
     (if file_extension ft = sfx then ft else from_extension_loop fts sfx)"

definition from_extension :: "string \<Rightarrow> FileType" where
  "from_extension sfx = from_extension_loop all_file_types sfx"

section \<open>\<open>FileTypeAnalyzer\<close>\<close>

text \<open>
  The file system is a partial map from paths to file contents; opening a path that is
  not there raises \<open>FileNotFoundError\<close>.
\<close>

type_synonym filesystem = "string \<Rightarrow> bytes option"

subsection \<open>Classification by byte signature\<close>

text \<open>
  \<open>file_type_from_signature\<close> reads the first 16 bytes and returns the first member,
  in declaration order, whose signature is a prefix of them and is not empty.
\<close>

fun signature_loop :: "FileType list \<Rightarrow> bytes \<Rightarrow> FileType" where
  "signature_loop [] sig = UNKNOWN"
| "signature_loop (ft # fts) sig =
     (if prefix (byte_signature ft) sig \<and> byte_signature ft \<noteq> [] then ft
      else signature_loop fts sig)"

definition file_type_from_signature :: "filesystem \<Rightarrow> string \<Rightarrow> py_error + FileType" where
  "file_type_from_signature fs file_path =
     (case fs file_path of
        None \<Rightarrow> Inl FileNotFoundError
      | Some content \<Rightarrow> Inr (signature_loop all_file_types (take 16 content)))"

subsection \<open>The merge of the three classifications\<close>

text \<open>
  The \<open>if\<close>/\<open>elif\<close> chain of \<open>FileTypeAnalyzer.file_type\<close>, over the results of the
  three classifiers. The first operand of the fifth test is compared with \<open>is\<close>.
\<close>

definition file_type_merge :: "FileType \<Rightarrow> FileType \<Rightarrow> FileType \<Rightarrow> FileType" where
  "file_type_merge ft_from_extension ft_from_signature ft_from_characteristics =
     (if ft_eq ft_from_extension ft_from_signature \<and> ft_ne ft_from_extension UNKNOWN
        then ft_from_extension
      else if ft_eq ft_from_extension ft_from_characteristics \<and> ft_ne ft_from_extension UNKNOWN
        then ft_from_extension
      else if ft_eq ft_from_signature ft_from_characteristics \<and> ft_ne ft_from_signature UNKNOWN
        then ft_from_signature
      else if ft_ne ft_from_signature UNKNOWN
        then ft_from_signature
      else if ft_from_extension = UNKNOWN \<and> ft_eq ft_from_characteristics FIXED_WIDTH
        then ft_from_characteristics
      else if ft_ne ft_from_characteristics UNKNOWN
        then ft_from_characteristics
      else TEXT)"

text \<open>
  The precedence table as the specification words it: seven numbered rules, each a
  condition and a result, the first rule whose condition holds giving the result.
\<close>

datatype signal = Extension | Signature | Characteristics | Fallback_TEXT

definition precedence_rules ::
  "FileType \<Rightarrow> FileType \<Rightarrow> FileType \<Rightarrow> (bool \<times> signal) list" where
  "precedence_rules e s c =
     [(e = s \<and> e \<noteq> UNKNOWN, Extension),
      (e = c \<and> e \<noteq> UNKNOWN, Extension),
      (s = c \<and> s \<noteq> UNKNOWN, Signature),
      (s \<noteq> UNKNOWN, Signature),
      (e = UNKNOWN \<and> c = FIXED_WIDTH, Characteristics),
      (c \<noteq> UNKNOWN, Characteristics),
      (True, Fallback_TEXT)]"

fun first_match :: "(bool \<times> signal) list \<Rightarrow> signal" where
  "first_match [] = Fallback_TEXT"
| "first_match ((cond, r) # rules) = (if cond then r else first_match rules)"

fun signal_value :: "signal \<Rightarrow> FileType \<Rightarrow> FileType \<Rightarrow> FileType \<Rightarrow> FileType" where
  "signal_value Extension e s c = e"
| "signal_value Signature e s c = s"
| "signal_value Characteristics e s c = c"
| "signal_value Fallback_TEXT e s c = TEXT"

definition precedence_table :: "FileType \<Rightarrow> FileType \<Rightarrow> FileType \<Rightarrow> FileType" where
  "precedence_table e s c = signal_value (first_match (precedence_rules e s c)) e s c"

subsection \<open>Classification by content characteristics\<close>

text \<open>
  Iterating a file opened in binary mode yields its lines: each ends with the byte
  \<open>\n\<close> that closes it, but for a last line that has none. \<open>file_lines cur bs\<close> is the
  list of lines of \<open>bs\<close> after the bytes \<open>cur\<close> of the line being read.
\<close>

fun file_lines :: "bytes \<Rightarrow> bytes \<Rightarrow> bytes list" where
  "file_lines cur [] = (if cur = [] then [] else [cur])"
| "file_lines cur (b # bs) =
     (if b = CHR 0x0A then (cur @ [b]) # file_lines [] bs else file_lines (cur @ [b]) bs)"

text \<open>
  The loop \<open>for i in range(20)\<close> that appends further lines: when the file is exhausted
  at index \<open>i\<close>, it leaves the function with \<open>UNKNOWN\<close> if \<open>i < 3\<close> (the result
  \<open>None\<close> here) and leaves the loop otherwise.
\<close>

fun more_lines :: "nat \<Rightarrow> bytes list \<Rightarrow> bytes list \<Rightarrow> bytes list option" where
  "more_lines i lines [] = (if 20 \<le> i then Some lines else if i < 3 then None else Some lines)"
| "more_lines i lines (l # rest) =
     (if 20 \<le> i then Some lines else more_lines (Suc i) (lines @ [l]) rest)"

text \<open>
  \<open>collections.Counter\<close> over a list: the keys in the order of their first occurrence,
  each with its number of occurrences. \<open>most_common(1)[0]\<close> is the first item with the
  greatest count.
\<close>

fun counter_add :: "'a \<Rightarrow> ('a \<times> nat) list \<Rightarrow> ('a \<times> nat) list" where
  "counter_add x [] = [(x, 1)]"
| "counter_add x ((k, n) # kvs) =
     (if k = x then (k, Suc n) # kvs else (k, n) # counter_add x kvs)"

definition Counter :: "'a list \<Rightarrow> ('a \<times> nat) list" where
  "Counter xs = foldl (\<lambda>acc x. counter_add x acc) [] xs"

fun first_max :: "('a \<Rightarrow> nat) \<Rightarrow> 'a \<Rightarrow> 'a list \<Rightarrow> 'a" where
  "first_max key best [] = best"
| "first_max key best (x # xs) = first_max key (if key best < key x then x else best) xs"

definition delimiters :: "char list" where
  "delimiters = [CHR '','', CHR 0x09, CHR ''|'', CHR '';'']"

definition classify_lines :: "bytes \<Rightarrow> bytes list \<Rightarrow> FileType" where
  "classify_lines first_line lines =
     (if prefix ''PK'' first_line then ZIP
      else if prefix ''<?xml'' first_line then XML
      else if prefix ''{'' first_line then JSON
      else if prefix ''['' first_line then JSONL
      else if prefix ''ID'' first_line then PDF
      else
        (let counts = Counter (filter (\<lambda>c. c \<in> set delimiters) first_line);
             by_delimiter =
               (case counts of
                  [] \<Rightarrow> None
                | kv # kvs \<Rightarrow>
                    (let (delimiter, delimiter_count) = first_max snd kv kvs in
                     if 1 < delimiter_count then
                       (if delimiter = CHR '','' then Some CSV
                        else if delimiter = CHR 0x09 then Some TSV
                        else if delimiter = CHR ''|'' then Some PIPE
                        else if delimiter = CHR '';'' then Some CSV
                        else None)
                     else None))
         in case by_delimiter of
              Some ft \<Rightarrow> ft
            | None \<Rightarrow>
                if length (Counter (map length lines)) = 1 then FIXED_WIDTH else UNKNOWN))"

definition file_type_from_characteristics :: "filesystem \<Rightarrow> string \<Rightarrow> py_error + FileType" where
  "file_type_from_characteristics fs file_path =
     (case fs file_path of
        None \<Rightarrow> Inl FileNotFoundError
      | Some content \<Rightarrow>
          (case file_lines [] content of
             [] \<Rightarrow> Inl StopIteration
           | first_line # rest \<Rightarrow>
               (case more_lines 0 [first_line] rest of
                  None \<Rightarrow> Inr UNKNOWN
                | Some lines \<Rightarrow> Inr (classify_lines first_line lines))))"

subsection \<open>\<open>FileTypeAnalyzer.file_type\<close>\<close>

text \<open>
  \<open>Path(file_path).suffix\<close> belongs to the standard library and is a parameter here.
\<close>

definition file_type_from_extension :: "(string \<Rightarrow> string) \<Rightarrow> string \<Rightarrow> FileType" where
  "file_type_from_extension path_suffix file_path = from_extension (path_suffix file_path)"

definition file_type ::
  "(string \<Rightarrow> string) \<Rightarrow> filesystem \<Rightarrow> string \<Rightarrow> py_error + FileType" where
  "file_type path_suffix fs file_path =
     (let ft_from_extension = file_type_from_extension path_suffix file_path in
      case file_type_from_signature fs file_path of
        Inl e \<Rightarrow> Inl e
      | Inr ft_from_signature \<Rightarrow>
          (case file_type_from_characteristics fs file_path of
             Inl e \<Rightarrow> Inl e
           | Inr ft_from_characteristics \<Rightarrow>
               Inr (file_type_merge ft_from_extension ft_from_signature
                      ft_from_characteristics)))"

section \<open>\<open>File.get_random_sample\<close> (file/\_\_init\_\_.py)\<close>

text \<open>
  The randomness of \<open>random.randint\<close> is an explicit stream of natural numbers, one per
  draw: \<open>randint a b\<close> maps the next number into the closed range from \<open>a\<close> to \<open>b\<close>,
  every value of which can be drawn, and raises \<open>ValueError\<close> on an empty range.
\<close>

type_synonym rng = "nat \<Rightarrow> nat"

definition randint :: "int \<Rightarrow> int \<Rightarrow> nat \<Rightarrow> py_error + int" where
  "randint a b r = (if b < a then Inl ValueError else Inr (a + int r mod (b - a + 1)))"

definition chunk_size :: nat where
  "chunk_size = 4096"

text \<open>\<open>file.seek(position)\<close> followed by \<open>file.read(chunk_size)\<close>.\<close>

definition read_at :: "bytes \<Rightarrow> int \<Rightarrow> py_error + bytes" where
  "read_at content position =
     (if position < 0 then Inl IOError else Inr (take chunk_size (drop (nat position) content)))"

text \<open>The loop \<open>for _ in range(chunk_count)\<close>, one random chunk for each round.\<close>

fun random_chunks :: "nat \<Rightarrow> bytes \<Rightarrow> rng \<Rightarrow> py_error + (bytes list \<times> rng)" where
  "random_chunks 0 content g = Inr ([], g)"
| "random_chunks (Suc k) content g =
     (case randint 0 (int (length content) - int chunk_size) (g 0) of
        Inl e \<Rightarrow> Inl e
      | Inr random_position \<Rightarrow>
          (case read_at content random_position of
             Inl e \<Rightarrow> Inl e
           | Inr chunk \<Rightarrow>
               (case random_chunks k content (\<lambda>i. g (Suc i)) of
                  Inl e \<Rightarrow> Inl e
                | Inr (chunks, g') \<Rightarrow> Inr (chunk # chunks, g'))))"

text \<open>
  The body of \<open>get_random_sample\<close>: every exception raised inside it is caught and
  raised again as \<open>IOError\<close>. \<open>//\<close> is floor division, as \<open>div\<close> on \<open>int\<close> is, and
  \<open>range\<close> of a negative number is empty.
\<close>

definition get_random_sample_body ::
  "filesystem \<Rightarrow> string \<Rightarrow> int \<Rightarrow> rng \<Rightarrow> (py_error + bytes) \<times> rng" where
  "get_random_sample_body fs file_path bytes_to_read g =
     (case fs file_path of
        None \<Rightarrow> (Inl IOError, g)
      | Some content \<Rightarrow>
          (let file_size = int (length content);
               bytes_to_read' = (if file_size < bytes_to_read then file_size else bytes_to_read);
               chunk_count = bytes_to_read' div int chunk_size
           in case random_chunks (nat chunk_count) content g of
                Inl e \<Rightarrow> (Inl IOError, g)
              | Inr (chunks, g') \<Rightarrow> (Inr (concat chunks), g')))"

text \<open>
  The decorator \<open>cache\<close> (helpers/decorators.py) keeps, under the name of the method
  alone, the last value returned and the time it was stored, and returns that value
  without calling the method until the entry is more than 60 seconds old. The clock
  \<open>time.time()\<close> is the parameter \<open>now\<close>. No caller in the repository passes the keyword
  \<open>DISABLE_CACHE\<close>, which is left out.
\<close>

type_synonym method_cache = "string \<Rightarrow> (bytes \<times> real) option"

definition get_random_sample ::
  "filesystem \<Rightarrow> string \<Rightarrow> real \<Rightarrow> int \<Rightarrow> method_cache \<times> rng
     \<Rightarrow> (py_error + bytes) \<times> method_cache \<times> rng" where
  "get_random_sample fs file_path now bytes_to_read w =
     (let (cache, g) = w;
          call = (case get_random_sample_body fs file_path bytes_to_read g of
                    (Inl e, g') \<Rightarrow> (Inl e, cache, g')
                  | (Inr v, g') \<Rightarrow> (Inr v, cache(''get_random_sample'' \<mapsto> (v, now)), g'))
      in case cache ''get_random_sample'' of
           None \<Rightarrow> call
         | Some (return_value, t) \<Rightarrow>
             if 60 < now - t then call else (Inr return_value, cache, g))"

text \<open>
  A chunk of a file: \<open>chunk_size\<close> consecutive bytes of its content.
\<close>

definition is_chunk_of :: "bytes \<Rightarrow> bytes \<Rightarrow> bool" where
  "is_chunk_of content chunk = (length chunk = chunk_size \<and> sublist chunk content)"

section \<open>The dialect enumerations (sniffer.py)\<close>

datatype Delimiter = Delimiter_NONE | COMMA | SEMICOLON | TAB | SPACE

datatype LineTerminator = CRLF | LF | CR

datatype Quotechar = DOUBLE_QUOTE | SINGLE_QUOTE | BACKTICK | Quotechar_NONE

datatype Header = Header_TRUE | Header_FALSE

datatype Encoding =
    ASCII | ANSI | ISO_8859_1 | WINDOWS_1252 | UTF_8_BOM | UTF_8 | CP1252 | LATIN_1
  | MACROMAN | UTF_16_BE | UTF_16_LE | UTF_16 | UTF_32_BE | UTF_32_LE | UTF_32
  | CP850 | CP1250 | CP1251 | CP1253

definition all_encodings :: "Encoding list" where
  "all_encodings =
     [ASCII, ANSI, ISO_8859_1, WINDOWS_1252, UTF_8_BOM, UTF_8, CP1252, LATIN_1,
      MACROMAN, UTF_16_BE, UTF_16_LE, UTF_16, UTF_32_BE, UTF_32_LE, UTF_32,
      CP850, CP1250, CP1251, CP1253]"

fun encoding_name :: "Encoding \<Rightarrow> string" where
  "encoding_name ASCII = ''ASCII''"
| "encoding_name ANSI = ''ANSI''"
| "encoding_name ISO_8859_1 = ''ISO_8859_1''"
| "encoding_name WINDOWS_1252 = ''WINDOWS_1252''"
| "encoding_name UTF_8_BOM = ''UTF_8_BOM''"
| "encoding_name UTF_8 = ''UTF_8''"
| "encoding_name CP1252 = ''CP1252''"
| "encoding_name LATIN_1 = ''LATIN_1''"
| "encoding_name MACROMAN = ''MACROMAN''"
| "encoding_name UTF_16_BE = ''UTF_16_BE''"
| "encoding_name UTF_16_LE = ''UTF_16_LE''"
| "encoding_name UTF_16 = ''UTF_16''"
| "encoding_name UTF_32_BE = ''UTF_32_BE''"
| "encoding_name UTF_32_LE = ''UTF_32_LE''"
| "encoding_name UTF_32 = ''UTF_32''"
| "encoding_name CP850 = ''CP850''"
| "encoding_name CP1250 = ''CP1250''"
| "encoding_name CP1251 = ''CP1251''"
| "encoding_name CP1253 = ''CP1253''"

fun lt_value :: "LineTerminator \<Rightarrow> bytes" where
  "lt_value CRLF = [CHR 0x0D, CHR 0x0A]"
| "lt_value LF = [CHR 0x0A]"
| "lt_value CR = [CHR 0x0D]"

text \<open>
  \<open>Encoding.get\<close>: the member named by the upper-cased name with every \<open>-\<close> replaced by
  \<open>_\<close>; any exception (no such attribute, or a name that is \<open>None\<close>) gives \<open>None\<close>.
  \<open>upper\<close> is modelled on ASCII letters.
\<close>

definition upper_char :: "char \<Rightarrow> char" where
  "upper_char c =
     (if (97::nat) \<le> of_char c \<and> of_char c \<le> (122::nat) then char_of (of_char c - (32::nat))
      else c)"

definition normalise_name :: "string \<Rightarrow> string" where
  "normalise_name name = map (\<lambda>c. if c = CHR ''-'' then CHR ''_'' else c) (map upper_char name)"

definition Encoding_get :: "string option \<Rightarrow> Encoding option" where
  "Encoding_get encoding =
     (case encoding of
        None \<Rightarrow> None
      | Some name \<Rightarrow> find (\<lambda>e. encoding_name e = normalise_name name) all_encodings)"

section \<open>Assignment to a dialect property\<close>

text \<open>
  The values a caller can assign, and the classes \<open>isinstance\<close> tests them against. An
  enumeration with members has no subclass, so its instances are its members.
\<close>

datatype py_value =
    EncodingV Encoding
  | DelimiterV Delimiter
  | LineTerminatorV LineTerminator
  | QuotecharV Quotechar
  | HeaderV Header
  | StrV string
  | BoolV bool
  | IntV int
  | NoneV

datatype py_class =
    Encoding_class | Delimiter_class | LineTerminator_class | Quotechar_class | Header_class

fun isinstance :: "py_value \<Rightarrow> py_class \<Rightarrow> bool" where
  "isinstance (EncodingV _) Encoding_class = True"
| "isinstance (DelimiterV _) Delimiter_class = True"
| "isinstance (LineTerminatorV _) LineTerminator_class = True"
| "isinstance (QuotecharV _) Quotechar_class = True"
| "isinstance (HeaderV _) Header_class = True"
| "isinstance _ _ = False"

text \<open>
  The attributes of a \<open>FileSniffer\<close> instance that hold the dialect; an attribute that
  has not been set is \<open>None\<close>. The method \<open>__init__\<close> stores the inferred line terminator
  as \<open>_line_terminator\<close>, the setter stores it as \<open>_lineterminator\<close>.
\<close>

record sniffer =
  encoding_attr :: "py_value option"
  delimiter_attr :: "py_value option"
  line_terminator_attr :: "py_value option"
  lineterminator_attr :: "py_value option"
  quotechar_attr :: "py_value option"
  header_attr :: "py_value option"

text \<open>
  A method returns the exception it raised, if any, and the instance as it leaves it.
  \<open>input_type_validation\<close> checks the positional arguments against the types given to
  the decorator, pairwise, and every keyword argument against the first type, before it
  calls the method.
\<close>

type_synonym 's py_method = "'s \<Rightarrow> py_value list \<Rightarrow> (string \<times> py_value) list \<Rightarrow> py_error option \<times> 's"

definition input_type_validation :: "py_class list \<Rightarrow> 's py_method \<Rightarrow> 's py_method" where
  "input_type_validation types meth self args kwargs =
     (if list_ex (\<lambda>(arg, ty). \<not> isinstance arg ty) (zip args types)
        then (Some TypeError, self)
      else if list_ex (\<lambda>(key, v). \<not> isinstance v (hd types)) kwargs
        then (Some TypeError, self)
      else meth self args kwargs)"

datatype dialect_property =
    P_encoding | P_delimiter | P_lineterminator | P_quotechar | P_header

fun property_enum :: "dialect_property \<Rightarrow> py_class" where
  "property_enum P_encoding = Encoding_class"
| "property_enum P_delimiter = Delimiter_class"
| "property_enum P_lineterminator = LineTerminator_class"
| "property_enum P_quotechar = Quotechar_class"
| "property_enum P_header = Header_class"

text \<open>The undecorated setters: each stores its argument in its attribute.\<close>

fun store :: "dialect_property \<Rightarrow> sniffer py_method" where
  "store P_encoding self [v] kwargs = (None, self\<lparr>encoding_attr := Some v\<rparr>)"
| "store P_delimiter self [v] kwargs = (None, self\<lparr>delimiter_attr := Some v\<rparr>)"
| "store P_lineterminator self [v] kwargs = (None, self\<lparr>lineterminator_attr := Some v\<rparr>)"
| "store P_quotechar self [v] kwargs = (None, self\<lparr>quotechar_attr := Some v\<rparr>)"
| "store P_header self [v] kwargs = (None, self\<lparr>header_attr := Some v\<rparr>)"
| "store p self args kwargs = (Some TypeError, self)"

text \<open>
  The assignment \<open>sniffer.p = v\<close> calls the decorated setter of the property with the one
  positional argument \<open>v\<close>.
\<close>

definition assign :: "dialect_property \<Rightarrow> sniffer \<Rightarrow> py_value \<Rightarrow> py_error option \<times> sniffer" where
  "assign p self v = input_type_validation [property_enum p] (store p) self [v] []"

fun stored :: "dialect_property \<Rightarrow> sniffer \<Rightarrow> py_value option" where
  "stored P_encoding self = encoding_attr self"
| "stored P_delimiter self = delimiter_attr self"
| "stored P_lineterminator self = lineterminator_attr self"
| "stored P_quotechar self = quotechar_attr self"
| "stored P_header self = header_attr self"

section \<open>\<open>FileSniffer.infer_encoding\<close>\<close>

text \<open>
  The codecs and the charset guesser are libraries, and parameters here: decoding a
  sample with an encoding succeeds, raises \<open>UnicodeDecodeError\<close>, or raises something
  else (\<open>LookupError\<close> where the platform has no codec of that name), and
  \<open>chardet.detect(sample)['encoding']\<close> is a name or \<open>None\<close>.
\<close>

datatype decode_outcome = Decodes | UnicodeDecodeError | Raises py_error

type_synonym decoder = "Encoding \<Rightarrow> bytes \<Rightarrow> decode_outcome"

type_synonym detector = "bytes \<Rightarrow> string option"

text \<open>
  The inner loop: the encodings that decode the sample, in declaration order. Only
  \<open>UnicodeDecodeError\<close> is caught.
\<close>

fun candidates_loop :: "decoder \<Rightarrow> Encoding list \<Rightarrow> bytes \<Rightarrow> py_error + Encoding list" where
  "candidates_loop decode [] smp = Inr []"
| "candidates_loop decode (encoding # encodings) smp =
     (case decode encoding smp of
        Raises e \<Rightarrow> Inl e
      | UnicodeDecodeError \<Rightarrow> candidates_loop decode encodings smp
      | Decodes \<Rightarrow>
          (case candidates_loop decode encodings smp of
             Inl e \<Rightarrow> Inl e
           | Inr candidates \<Rightarrow> Inr (encoding # candidates)))"

definition candidates_of :: "decoder \<Rightarrow> bytes \<Rightarrow> py_error + Encoding list" where
  "candidates_of decode smp = candidates_loop decode all_encodings smp"

text \<open>
  One pass of the outer loop up to its \<open>return\<close>: the encoding returned, an exception,
  or neither.
\<close>

datatype attempt_outcome = Returns Encoding | Attempt_raises py_error | Fails

definition attempt :: "decoder \<Rightarrow> detector \<Rightarrow> bytes \<Rightarrow> attempt_outcome" where
  "attempt decode detect smp =
     (case candidates_of decode smp of
        Inl e \<Rightarrow> Attempt_raises e
      | Inr candidates \<Rightarrow>
          (case Encoding_get (detect smp) of
             None \<Rightarrow> Fails
           | Some encoding \<Rightarrow> if encoding \<in> set candidates then Returns encoding else Fails))"

text \<open>
  The outer loop \<open>for i in range(5)\<close>, over the indices still to run. The sampler
  \<open>self.delimited_file.get_random_sample\<close> is a function of the requested size and of
  the state \<open>w\<close> it reads and changes (cache, random numbers, clock). The result is what
  the method returns or raises, the sample it leaves in \<open>self.sample\<close>, and that state.
\<close>

type_synonym 'w sampler = "int \<Rightarrow> 'w \<Rightarrow> (py_error + bytes) \<times> 'w"

fun infer_encoding_loop ::
  "decoder \<Rightarrow> detector \<Rightarrow> 'w sampler \<Rightarrow> int \<Rightarrow> int list \<Rightarrow> bytes \<Rightarrow> 'w
     \<Rightarrow> (py_error + Encoding) \<times> bytes \<times> 'w" where
  "infer_encoding_loop decode detect grs BYTES_TO_ANALYZE [] smp w =
     (Inl EncodingException, smp, w)"
| "infer_encoding_loop decode detect grs BYTES_TO_ANALYZE (i # is) smp w =
     (case attempt decode detect smp of
        Returns encoding \<Rightarrow> (Inr encoding, smp, w)
      | Attempt_raises e \<Rightarrow> (Inl e, smp, w)
      | Fails \<Rightarrow>
          (case grs (BYTES_TO_ANALYZE * i) w of
             (Inl e, w') \<Rightarrow> (Inl e, smp, w')
           | (Inr smp', w') \<Rightarrow>
               infer_encoding_loop decode detect grs BYTES_TO_ANALYZE is smp' w'))"

definition infer_encoding ::
  "decoder \<Rightarrow> detector \<Rightarrow> 'w sampler \<Rightarrow> int \<Rightarrow> bytes \<Rightarrow> 'w
     \<Rightarrow> (py_error + Encoding) \<times> bytes \<times> 'w" where
  "infer_encoding decode detect grs BYTES_TO_ANALYZE smp w =
     infer_encoding_loop decode detect grs BYTES_TO_ANALYZE [0, 1, 2, 3, 4] smp w"

text \<open>
  A sampler that writes down each size it is asked for, and returns the sample \<open>f n\<close>
  for the size \<open>n\<close>: the state is the list of the sizes requested so far.
\<close>

definition recording_sampler :: "(int \<Rightarrow> bytes) \<Rightarrow> int list sampler" where
  "recording_sampler f n requested = (Inr (f n), requested @ [n])"

text \<open>
  The sampler of the source: \<open>get_random_sample\<close> of the file at \<open>file_path\<close>, with its
  cache and its random numbers as the state.
\<close>

definition file_sampler :: "filesystem \<Rightarrow> string \<Rightarrow> real \<Rightarrow> (method_cache \<times> rng) sampler" where
  "file_sampler fs file_path now n w =
     (case get_random_sample fs file_path now n w of (r, cache, g) \<Rightarrow> (r, (cache, g)))"

section \<open>\<open>FileSniffer.infer_line_terminator\<close>\<close>

text \<open>
  \<open>bytes.count(sub)\<close>: the number of occurrences of \<open>sub\<close> that do not overlap, found
  from left to right; for an empty \<open>sub\<close>, the length plus one.
\<close>

function count_sub :: "bytes \<Rightarrow> bytes \<Rightarrow> nat" where
  "count_sub sub s =
     (if sub = [] then Suc (length s)
      else if s = [] then 0
      else if prefix sub s then Suc (count_sub sub (drop (length sub) s))
      else count_sub sub (tl s))"
  by pat_completeness auto
termination
  by (relation "measure (\<lambda>(sub, s). length s)") auto

declare count_sub.simps [simp del]

text \<open>
  \<open>max(counts, key=counts.get)\<close> over the dictionary built in the order \<open>CRLF\<close>, \<open>LF\<close>,
  \<open>CR\<close> is the first key with the greatest count. The product with \<open>0.9\<close> is taken in
  exact arithmetic.
\<close>

definition infer_line_terminator :: "bytes \<Rightarrow> LineTerminator" where
  "infer_line_terminator smp =
     (let counts = (\<lambda>lt. count_sub (lt_value lt) smp) in
      if rat_of_nat (counts LF) + rat_of_nat (counts CR) * (9 / 10) < rat_of_nat (counts CRLF)
        then CRLF
      else if counts LF = counts CR then CRLF
      else first_max counts CRLF [LF, CR])"

text \<open>
  The rule as the specification words it, over the three counts: the weighted test, the
  test of equality, and otherwise the terminator with the highest count (the earlier one
  in the order \<open>CRLF\<close>, \<open>LF\<close>, \<open>CR\<close> when two are equal).
\<close>

definition highest_count :: "nat \<Rightarrow> nat \<Rightarrow> nat \<Rightarrow> LineTerminator" where
  "highest_count crlf lf cr =
     (if lf \<le> crlf \<and> cr \<le> crlf then CRLF else if cr \<le> lf then LF else CR)"

definition line_terminator_rule :: "nat \<Rightarrow> nat \<Rightarrow> nat \<Rightarrow> LineTerminator" where
  "line_terminator_rule crlf lf cr =
     (if rat_of_nat lf + (9 / 10) * rat_of_nat cr < rat_of_nat crlf then CRLF
      else if lf = cr then CRLF
      else highest_count crlf lf cr)"

section \<open>\<open>get_data_type\<close> and \<open>FileSniffer.infer_header\<close>\<close>

datatype py_type = T_int | T_float | T_datetime | T_str

text \<open>
  The conversions \<open>int\<close>, \<open>float\<close> and \<open>datetime.strptime\<close> are built in; whether they
  accept a field is a parameter. \<open>strptime_ok field form\<close> says so for one format.
\<close>

record conversions =
  int_ok :: "string \<Rightarrow> bool"
  float_ok :: "string \<Rightarrow> bool"
  strptime_ok :: "string \<Rightarrow> string \<Rightarrow> bool"

definition formats :: "string list" where
  "formats =
     [''%d-%m-%Y'', ''%Y-%m-%d'', ''%Y/%m/%d'', ''%Y-%m-%d %H'', ''%Y-%m-%d %H:%M'',
      ''%Y-%m-%d %H:%M:%S'', ''%Y-%m-%d %H:%M:%S.%f'', ''%Y-%m-%d %H:%M:%S %z'']"

definition get_data_type :: "conversions \<Rightarrow> string \<Rightarrow> py_type" where
  "get_data_type cv field =
     (if int_ok cv field then T_int
      else if float_ok cv field then T_float
      else if list_ex (strptime_ok cv field) formats then T_datetime
      else T_str)"

text \<open>
  \<open>checks[0][i]\<close>: \<open>checks\<close> maps the index of each row after the first to the map from
  the index of each of its fields to the field's type; a missing key raises \<open>KeyError\<close>.
\<close>

definition checks_lookup :: "py_type list list \<Rightarrow> nat \<Rightarrow> nat \<Rightarrow> py_error + py_type" where
  "checks_lookup checks line_num i =
     (if line_num < length checks \<and> i < length (checks ! line_num)
        then Inr (checks ! line_num ! i)
      else Inl KeyError)"

text \<open>
  The list comprehension under \<open>sum\<close>: one \<open>1\<close> for each index of the first row where the
  types differ.
\<close>

fun differing :: "py_type list \<Rightarrow> py_type list list \<Rightarrow> nat list \<Rightarrow> py_error + nat" where
  "differing first_row_data_types checks [] = Inr 0"
| "differing first_row_data_types checks (i # is) =
     (case checks_lookup checks 0 i of
        Inl e \<Rightarrow> Inl e
      | Inr t \<Rightarrow>
          (case differing first_row_data_types checks is of
             Inl e \<Rightarrow> Inl e
           | Inr n \<Rightarrow> Inr ((if first_row_data_types ! i \<noteq> t then 1 else 0) + n)))"

text \<open>
  The CSV reader over the decoded sample is lazy: each \<open>next\<close> yields a row or raises
  (\<open>csv.Error\<close> on a line the parser refuses, the decoder's error on bytes it cannot
  decode), and the end of the sample is \<open>StopIteration\<close>. A reader is the list of what
  its successive \<open>next\<close> give; nothing is read after one of them has raised.
\<close>

datatype reader_item = Row "string list" | Reader_raises py_error

text \<open>
  The dictionary comprehension that builds \<open>checks\<close> runs through every row left in the
  reader, so an exception of the reader on any later line leaves \<open>infer_header\<close>.
\<close>

fun drain :: "conversions \<Rightarrow> reader_item list \<Rightarrow> py_error + py_type list list" where
  "drain cv [] = Inr []"
| "drain cv (Reader_raises e # reader) = Inl e"
| "drain cv (Row row # reader) =
     (case drain cv reader of
        Inl e \<Rightarrow> Inl e
      | Inr checks \<Rightarrow> Inr (map (get_data_type cv) row # checks))"

text \<open>
  \<open>infer_header\<close> over the reader of the sample. A first row with a field that is not
  a string returns before the other rows are read. The quotient is taken in exact
  arithmetic.
\<close>

definition infer_header :: "conversions \<Rightarrow> reader_item list \<Rightarrow> py_error + Header" where
  "infer_header cv reader =
     (case reader of
        [] \<Rightarrow> Inl StopIteration
      | Reader_raises e # reader' \<Rightarrow> Inl e
      | Row first_row # reader' \<Rightarrow>
          (let first_row_data_types = map (get_data_type cv) first_row in
           if \<not> list_all (\<lambda>data_type. data_type = T_str) first_row_data_types
             then Inr Header_FALSE
           else
             (case drain cv reader' of
                Inl e \<Rightarrow> Inl e
              | Inr checks \<Rightarrow>
                  (let first_row_type_length = length first_row_data_types
                   in case differing first_row_data_types checks [0 ..< first_row_type_length] of
                        Inl e \<Rightarrow> Inl e
                      | Inr n \<Rightarrow>
                          if first_row_type_length = 0 then Inl ZeroDivisionError
                          else if (1 / 10 :: rat) < rat_of_nat n / rat_of_nat first_row_type_length
                            then Inr Header_TRUE
                          else Inr Header_FALSE))))"

text \<open>
  The fraction of the specification: the share of the column positions of the first row
  at which the type of the first row differs from the type of the second row.
\<close>

definition mismatch_fraction :: "py_type list \<Rightarrow> py_type list \<Rightarrow> rat" where
  "mismatch_fraction first_types second_types =
     rat_of_nat (length (filter (\<lambda>i. first_types ! i \<noteq> second_types ! i) [0 ..< length first_types]))
       / rat_of_nat (length first_types)"

text \<open>
  Conversions for the examples: they accept what Python accepts among the fields used
  there, a field of decimal digits as an integer and as a float, and nothing else.
\<close>

definition digit_conversions :: conversions where
  "digit_conversions =
     \<lparr>int_ok = (\<lambda>field. field \<noteq> [] \<and> list_all (\<lambda>c. c \<in> set ''0123456789'') field),
      float_ok = (\<lambda>field. field \<noteq> [] \<and> list_all (\<lambda>c. c \<in> set ''0123456789'') field),
      strptime_ok = (\<lambda>field form. False)\<rparr>"

text \<open>
  The sample of the specification's example: 100 times \<open>\r\n\<close>, then 5 lines ending in
  a lone \<open>\n\<close>, then 5 times a lone \<open>\r\<close> followed by a letter.
\<close>

definition crlf_sample :: bytes where
  "crlf_sample =
     concat (replicate 100 [CHR 0x0D, CHR 0x0A])
     @ concat (replicate 5 [CHR ''a'', CHR 0x0A])
     @ concat (replicate 5 [CHR 0x0D, CHR ''b''])"

text \<open>
  A call of \<open>get_random_sample\<close> reads the file when the cache holds no value for the
  method, or one that is more than 60 seconds old.
\<close>

definition cache_miss :: "method_cache \<Rightarrow> real \<Rightarrow> bool" where
  "cache_miss cache now =
     (case cache ''get_random_sample'' of None \<Rightarrow> True | Some (return_value, t) \<Rightarrow> 60 < now - t)"

section \<open>Facts about the enumeration\<close>

lemma file_extension_inj: "file_extension a = file_extension b \<Longrightarrow> a = b"
  by (cases a; cases b; simp)

lemma ft_eq_iff: "ft_eq a b \<longleftrightarrow> a = b"
  using file_extension_inj by (auto simp: ft_eq_def ft_value_def)

lemma ft_ne_iff: "ft_ne a b \<longleftrightarrow> a \<noteq> b"
  by (simp add: ft_ne_def ft_eq_iff)

lemma signature_loop_pk:
  "signature_loop all_file_types (CHR ''P'' # CHR ''K'' # CHR 0x03 # CHR 0x04 # r) = EXCEL"
  by (simp add: all_file_types_def)

lemma signature_unique_otherwise:
  "a \<noteq> b \<Longrightarrow> byte_signature a \<noteq> [] \<Longrightarrow> byte_signature a = byte_signature b
   \<Longrightarrow> (a = EXCEL \<and> b = ZIP) \<or> (a = ZIP \<and> b = EXCEL)"
  by (cases a; cases b; simp)

lemma file_type_merge_table: "file_type_merge e s c = precedence_table e s c"
  by (simp add: file_type_merge_def precedence_table_def precedence_rules_def ft_eq_iff ft_ne_iff)

lemma file_type_merge_known: "file_type_merge e s c \<noteq> UNKNOWN"
  by (simp add: file_type_merge_def ft_eq_iff ft_ne_iff)

lemma more_lines_few: "length rest < 3 \<Longrightarrow> more_lines 0 [l] rest = None"
  by (cases rest; cases "tl rest"; cases "tl (tl rest)") auto

text \<open>
  A file of one, two or three lines is classified \<open>UNKNOWN\<close> by its characteristics,
  whatever the lines hold.
\<close>

lemma characteristics_one_to_three_lines:
  assumes "fs file_path = Some content" and "file_lines [] content = l # rest"
    and "length rest < 3"
  shows "file_type_from_characteristics fs file_path = Inr UNKNOWN"
  using assms by (simp add: file_type_from_characteristics_def more_lines_few)

section \<open>Classification by signature of a ZIP archive\<close>

text \<open>
  Claim C1 says that a file whose first 16 bytes begin with \<open>PK\x03\x04\<close> is classified
  \<open>ZIP\<close> by its signature, whatever the extension of its path. The loop over the
  enumeration reaches \<open>EXCEL\<close>, declared before \<open>ZIP\<close> with the same four bytes, first:
  every such file is classified \<open>EXCEL\<close> and none is classified \<open>ZIP\<close>.
\<close>

theorem signature_pk_is_excel:
  assumes "fs file_path = Some content"
    and "prefix [CHR ''P'', CHR ''K'', CHR 0x03, CHR 0x04] (take 16 content)"
  shows "file_type_from_signature fs file_path = Inr EXCEL
         \<and> file_type_from_signature fs file_path \<noteq> Inr ZIP"
proof -
  from assms(2) obtain r where "take 16 content = CHR ''P'' # CHR ''K'' # CHR 0x03 # CHR 0x04 # r"
    by (auto simp: prefix_def)
  then show ?thesis
    using assms(1) by (simp add: file_type_from_signature_def signature_loop_pk)
qed

theorem signature_pk_is_excel_witness:
  "prefix [CHR ''P'', CHR ''K'', CHR 0x03, CHR 0x04]
     (take 16 (''PK'' @ [CHR 0x03, CHR 0x04] @ ''rest of the archive''))
   \<and> file_type_from_signature
       [''notes.txt'' \<mapsto> ''PK'' @ [CHR 0x03, CHR 0x04] @ ''rest of the archive'']
       ''notes.txt'' = Inr EXCEL"
  using signature_pk_is_excel
    [of "[''notes.txt'' \<mapsto> ''PK'' @ [CHR 0x03, CHR 0x04] @ ''rest of the archive'']"
        "''notes.txt''" "''PK'' @ [CHR 0x03, CHR 0x04] @ ''rest of the archive''"]
  by simp

section \<open>The merge follows the precedence table\<close>

text \<open>
  Claim C2: for every triple of results of the three classifiers, the merge of
  \<open>FileTypeAnalyzer.file_type\<close> is the result of the seven rules of the precedence table
  applied in order, and it is never \<open>UNKNOWN\<close>; \<open>file_type\<close> itself returns the table's
  result for the results of its three classifiers, when the two that read the file
  return.
\<close>

theorem file_type_follows_precedence_table:
  "file_type_merge e s c = precedence_table e s c
   \<and> file_type_merge e s c \<noteq> UNKNOWN
   \<and> file_type path_suffix fs file_path =
       (case file_type_from_signature fs file_path of
          Inl err \<Rightarrow> Inl err
        | Inr s' \<Rightarrow>
            (case file_type_from_characteristics fs file_path of
               Inl err \<Rightarrow> Inl err
             | Inr c' \<Rightarrow> Inr (precedence_table (from_extension (path_suffix file_path)) s' c')))"
proof (intro conjI)
  show "file_type_merge e s c = precedence_table e s c"
    by (rule file_type_merge_table)
  show "file_type_merge e s c \<noteq> UNKNOWN"
    by (rule file_type_merge_known)
  show "file_type path_suffix fs file_path =
       (case file_type_from_signature fs file_path of
          Inl err \<Rightarrow> Inl err
        | Inr s' \<Rightarrow>
            (case file_type_from_characteristics fs file_path of
               Inl err \<Rightarrow> Inl err
             | Inr c' \<Rightarrow> Inr (precedence_table (from_extension (path_suffix file_path)) s' c')))"
    by (simp add: file_type_merge_table file_type_def file_type_from_extension_def
        split: sum.splits)
qed

section \<open>Two members with one signature\<close>

text \<open>
  Claim C3 says that no two distinct members of \<open>FileType\<close> with a signature that is not
  empty have the same signature. The members \<open>EXCEL\<close> and \<open>ZIP\<close> are distinct, and both
  carry the four bytes \<open>PK\x03\x04\<close>. They are the only such pair
  (\<open>signature_unique_otherwise\<close>).
\<close>

theorem signature_collision:
  "EXCEL \<noteq> ZIP \<and> byte_signature EXCEL \<noteq> [] \<and> byte_signature ZIP \<noteq> []
   \<and> byte_signature EXCEL = byte_signature ZIP"
  by simp

section \<open>Classification by characteristics of an empty file\<close>

text \<open>
  Claim C8 says that a file from which fewer than four lines can be read is classified
  \<open>UNKNOWN\<close> by its characteristics and that no exception is raised. For a file of one
  to three lines that is so (\<open>characteristics_one_to_three_lines\<close>). For an empty file
  the first \<open>next(file)\<close>, which stands outside the \<open>try\<close>, raises \<open>StopIteration\<close>.
\<close>

theorem characteristics_empty_file_raises:
  assumes "fs file_path = Some []"
  shows "file_type_from_characteristics fs file_path = Inl StopIteration"
  using assms by (simp add: file_type_from_characteristics_def)

theorem characteristics_empty_file_raises_witness:
  "[''empty.csv'' \<mapsto> []] ''empty.csv'' = Some ([] :: bytes)
   \<and> file_type_from_characteristics [''empty.csv'' \<mapsto> []] ''empty.csv'' = Inl StopIteration"
  using characteristics_empty_file_raises [of "[''empty.csv'' \<mapsto> []]" "''empty.csv''"]
  by simp

section \<open>Counting the line terminators\<close>

lemma count_sub_Nil [simp]: "sub \<noteq> [] \<Longrightarrow> count_sub sub [] = 0"
  by (subst count_sub.simps) simp

lemma count_sub_single: "count_sub [b] s = length (filter (\<lambda>c. c = b) s)"
proof (induction s)
  case Nil
  show ?case by simp
next
  case (Cons x xs)
  then show ?case by (subst count_sub.simps) auto
qed

lemma count_sub_pair_le_second: "count_sub [a, b] s \<le> length (filter (\<lambda>c. c = b) s)"
proof (induction s rule: length_induct)
  case (1 s)
  show ?case
  proof (cases s)
    case Nil
    then show ?thesis by simp
  next
    case (Cons x xs)
    show ?thesis
    proof (cases "prefix [a, b] s")
      case True
      then obtain ys where s: "s = a # b # ys" by (auto simp: prefix_def)
      have "count_sub [a, b] s = Suc (count_sub [a, b] ys)"
        by (subst count_sub.simps) (simp add: s)
      moreover have "count_sub [a, b] ys \<le> length (filter (\<lambda>c. c = b) ys)"
        using 1 s by simp
      moreover have "Suc (length (filter (\<lambda>c. c = b) ys)) \<le> length (filter (\<lambda>c. c = b) s)"
        by (simp add: s)
      ultimately show ?thesis by linarith
    next
      case False
      have "count_sub [a, b] s = count_sub [a, b] xs"
        using False Cons by (subst count_sub.simps) auto
      moreover have "count_sub [a, b] xs \<le> length (filter (\<lambda>c. c = b) xs)"
        using 1 Cons by simp
      moreover have "length (filter (\<lambda>c. c = b) xs) \<le> length (filter (\<lambda>c. c = b) s)"
        by (simp add: Cons)
      ultimately show ?thesis by linarith
    qed
  qed
qed

lemma count_sub_pair_le_first: "count_sub [a, b] s \<le> length (filter (\<lambda>c. c = a) s)"
proof (induction s rule: length_induct)
  case (1 s)
  show ?case
  proof (cases s)
    case Nil
    then show ?thesis by simp
  next
    case (Cons x xs)
    show ?thesis
    proof (cases "prefix [a, b] s")
      case True
      then obtain ys where s: "s = a # b # ys" by (auto simp: prefix_def)
      have "count_sub [a, b] s = Suc (count_sub [a, b] ys)"
        by (subst count_sub.simps) (simp add: s)
      moreover have "count_sub [a, b] ys \<le> length (filter (\<lambda>c. c = a) ys)"
        using 1 s by simp
      moreover have "Suc (length (filter (\<lambda>c. c = a) ys)) \<le> length (filter (\<lambda>c. c = a) s)"
        by (simp add: s)
      ultimately show ?thesis by linarith
    next
      case False
      have "count_sub [a, b] s = count_sub [a, b] xs"
        using False Cons by (subst count_sub.simps) auto
      moreover have "count_sub [a, b] xs \<le> length (filter (\<lambda>c. c = a) xs)"
        using 1 Cons by simp
      moreover have "length (filter (\<lambda>c. c = a) xs) \<le> length (filter (\<lambda>c. c = a) s)"
        by (simp add: Cons)
      ultimately show ?thesis by linarith
    qed
  qed
qed

lemma crlf_le_lf: "count_sub (lt_value CRLF) smp \<le> count_sub (lt_value LF) smp"
  by (simp add: count_sub_single count_sub_pair_le_second)

lemma crlf_le_cr: "count_sub (lt_value CRLF) smp \<le> count_sub (lt_value CR) smp"
  by (simp add: count_sub_single count_sub_pair_le_first)

lemma first_max_highest_count:
  "first_max counts CRLF [LF, CR] = highest_count (counts CRLF) (counts LF) (counts CR)"
  by (auto simp: highest_count_def)

section \<open>The rule of the line terminator\<close>

text \<open>
  Claim C7: for every sample, \<open>infer_line_terminator\<close> returns \<open>CRLF\<close> if the count of
  \<open>\r\n\<close> exceeds the count of \<open>\n\<close> plus 0.9 times the count of \<open>\r\<close>; else \<open>CRLF\<close>
  if the counts of \<open>\n\<close> and \<open>\r\<close> are equal; else the terminator with the highest
  count. The sample with 100 \<open>\r\n\<close>, 5 lone \<open>\n\<close> and 5 lone \<open>\r\<close> has the counts
  100, 105 and 105 and is inferred \<open>CRLF\<close>.
\<close>

theorem infer_line_terminator_follows_rule:
  "infer_line_terminator smp =
     line_terminator_rule (count_sub (lt_value CRLF) smp) (count_sub (lt_value LF) smp)
       (count_sub (lt_value CR) smp)"
  unfolding infer_line_terminator_def line_terminator_rule_def Let_def first_max_highest_count
  by (simp add: mult.commute)

lemma crlf_sample_counts:
  "count_sub (lt_value CRLF) crlf_sample = 100
   \<and> count_sub (lt_value LF) crlf_sample = 105
   \<and> count_sub (lt_value CR) crlf_sample = 105"
  by code_simp

theorem infer_line_terminator_follows_rule_witness:
  "count_sub (lt_value CRLF) crlf_sample = 100
   \<and> count_sub (lt_value LF) crlf_sample = 105
   \<and> count_sub (lt_value CR) crlf_sample = 105
   \<and> infer_line_terminator crlf_sample = CRLF"
  using infer_line_terminator_follows_rule [of crlf_sample] crlf_sample_counts
  by (simp add: line_terminator_rule_def)

section \<open>The weighted test never holds\<close>

lemma weighted_test_fails:
  "\<not> (rat_of_nat (count_sub (lt_value LF) smp) + rat_of_nat (count_sub (lt_value CR) smp) * (9 / 10)
        < rat_of_nat (count_sub (lt_value CRLF) smp))"
proof -
  have "rat_of_nat (count_sub (lt_value CRLF) smp) \<le> rat_of_nat (count_sub (lt_value LF) smp)"
    using crlf_le_lf [of smp] by (simp only: of_nat_le_iff)
  moreover have "0 \<le> rat_of_nat (count_sub (lt_value CR) smp) * (9 / 10)"
    by simp
  ultimately show ?thesis by linarith
qed

text \<open>
  Claim C10: every occurrence of \<open>\r\n\<close> is counted once more as \<open>\n\<close> and once more as
  \<open>\r\<close>, so for every sample neither count is below the count of \<open>\r\n\<close>; the test
  that the count of \<open>\r\n\<close> exceeds the count of \<open>\n\<close> plus 0.9 times the count of
  \<open>\r\<close> is never satisfied, and \<open>infer_line_terminator\<close> returns \<open>CRLF\<close> exactly when
  the counts of \<open>\n\<close> and \<open>\r\<close> are equal.
\<close>

theorem crlf_only_by_equality:
  "count_sub (lt_value CRLF) smp \<le> count_sub (lt_value LF) smp
   \<and> count_sub (lt_value CRLF) smp \<le> count_sub (lt_value CR) smp
   \<and> \<not> (rat_of_nat (count_sub (lt_value LF) smp)
            + rat_of_nat (count_sub (lt_value CR) smp) * (9 / 10)
          < rat_of_nat (count_sub (lt_value CRLF) smp))
   \<and> ((infer_line_terminator smp = CRLF)
        = (count_sub (lt_value LF) smp = count_sub (lt_value CR) smp))"
proof (intro conjI)
  show "count_sub (lt_value CRLF) smp \<le> count_sub (lt_value LF) smp" by (rule crlf_le_lf)
  show "count_sub (lt_value CRLF) smp \<le> count_sub (lt_value CR) smp" by (rule crlf_le_cr)
  show "\<not> (rat_of_nat (count_sub (lt_value LF) smp)
            + rat_of_nat (count_sub (lt_value CR) smp) * (9 / 10)
          < rat_of_nat (count_sub (lt_value CRLF) smp))" by (rule weighted_test_fails)
  show "(infer_line_terminator smp = CRLF)
        = (count_sub (lt_value LF) smp = count_sub (lt_value CR) smp)"
    using crlf_le_lf [of smp] crlf_le_cr [of smp] weighted_test_fails [of smp]
    unfolding infer_line_terminator_def Let_def
    by (auto simp del: lt_value.simps)
qed

section \<open>Assigning a value that is not of the enumeration\<close>

lemma assign_valid:
  "isinstance v (property_enum p) \<Longrightarrow> assign p self v = store p self [v] []"
  by (simp add: assign_def input_type_validation_def)

text \<open>
  Claim C9: for each of the five dialect properties, assigning a value that is not a
  member of the property's enumeration raises \<open>TypeError\<close> and leaves the instance, and
  so the value stored for the property, as it was.
\<close>

theorem assign_invalid_raises_and_keeps:
  assumes "\<not> isinstance v (property_enum p)"
  shows "assign p self v = (Some TypeError, self)
         \<and> stored p (snd (assign p self v)) = stored p self"
  using assms by (simp add: assign_def input_type_validation_def)

theorem assign_invalid_raises_and_keeps_witness:
  "\<not> isinstance (StrV ''utf-8'') (property_enum P_encoding)
   \<and> assign P_encoding
       \<lparr>encoding_attr = Some (EncodingV ASCII), delimiter_attr = None,
        line_terminator_attr = None, lineterminator_attr = None,
        quotechar_attr = None, header_attr = None\<rparr> (StrV ''utf-8'')
     = (Some TypeError,
        \<lparr>encoding_attr = Some (EncodingV ASCII), delimiter_attr = None,
         line_terminator_attr = None, lineterminator_attr = None,
         quotechar_attr = None, header_attr = None\<rparr>)"
  using assign_invalid_raises_and_keeps [of "StrV ''utf-8''" P_encoding
      "\<lparr>encoding_attr = Some (EncodingV ASCII), delimiter_attr = None,
        line_terminator_attr = None, lineterminator_attr = None,
        quotechar_attr = None, header_attr = None\<rparr>"]
  by simp

section \<open>The size of a random sample\<close>

lemma read_at_chunk:
  assumes "0 \<le> pos" and "pos + int chunk_size \<le> int (length content)"
  shows "\<exists>chunk. read_at content pos = Inr chunk \<and> is_chunk_of content chunk"
proof -
  let ?c = "take chunk_size (drop (nat pos) content)"
  have len: "length ?c = chunk_size" using assms by auto
  have "content = take (nat pos) content @ ?c @ drop chunk_size (drop (nat pos) content)"
    by (simp only: append_take_drop_id)
  then have "sublist ?c content" unfolding sublist_def by blast
  with len show ?thesis using assms(1) by (simp add: read_at_def is_chunk_of_def)
qed

lemma randint_range:
  assumes "a \<le> b"
  shows "\<exists>x. randint a b r = Inr x \<and> a \<le> x \<and> x \<le> b"
proof -
  have lo: "0 \<le> int r mod (b - a + 1)" using assms by simp
  have pos: "0 < b - a + 1" using assms by linarith
  have hi: "int r mod (b - a + 1) < b - a + 1" by (rule pos_mod_bound [OF pos])
  have "randint a b r = Inr (a + int r mod (b - a + 1))"
    using assms by (simp add: randint_def)
  moreover have "a \<le> a + int r mod (b - a + 1)" using lo by linarith
  moreover have "a + int r mod (b - a + 1) \<le> b" using hi by linarith
  ultimately show ?thesis by blast
qed

lemma random_chunks_ok:
  assumes "k = 0 \<or> chunk_size \<le> length content"
  shows "\<exists>chunks g'. random_chunks k content g = Inr (chunks, g')
           \<and> length chunks = k \<and> list_all (is_chunk_of content) chunks"
  using assms
proof (induction k arbitrary: g)
  case 0
  show ?case by simp
next
  case (Suc k)
  then have big: "chunk_size \<le> length content" by simp
  then obtain x where x: "randint 0 (int (length content) - int chunk_size) (g 0) = Inr x"
      "0 \<le> x" "x \<le> int (length content) - int chunk_size"
    using randint_range [of 0 "int (length content) - int chunk_size" "g 0"] by auto
  then obtain chunk where c: "read_at content x = Inr chunk" "is_chunk_of content chunk"
    using read_at_chunk [of x content] by auto
  from Suc.IH [of "\<lambda>i. g (Suc i)"] big obtain chunks g' where
    r: "random_chunks k content (\<lambda>i. g (Suc i)) = Inr (chunks, g')" "length chunks = k"
       "list_all (is_chunk_of content) chunks"
    by auto
  show ?case using x(1) c r by simp
qed

lemma length_concat_chunks:
  "list_all (is_chunk_of content) chunks \<Longrightarrow> length (concat chunks) = chunk_size * length chunks"
  by (induction chunks) (auto simp: is_chunk_of_def)

lemma get_random_sample_body_ok:
  assumes "fs file_path = Some content" and "0 \<le> n"
  shows "\<exists>chunks g'. get_random_sample_body fs file_path n g = (Inr (concat chunks), g')
           \<and> list_all (is_chunk_of content) chunks
           \<and> int (length chunks) = min n (int (length content)) div int chunk_size"
proof -
  let ?m = "min n (int (length content))"
  let ?k = "nat (?m div int chunk_size)"
  have m0: "0 \<le> ?m" using assms(2) by simp
  have "?k = 0 \<or> chunk_size \<le> length content"
  proof (cases "?k = 0")
    case False
    then have "0 < ?m div int chunk_size" by simp
    then have "int chunk_size \<le> ?m"
      by (simp add: chunk_size_def pos_imp_zdiv_pos_iff)
    then show ?thesis by simp
  qed simp
  from random_chunks_ok [OF this, of g] obtain chunks g' where
    r: "random_chunks ?k content g = Inr (chunks, g')" "length chunks = ?k"
       "list_all (is_chunk_of content) chunks" by blast
  have k: "int ?k = ?m div int chunk_size"
    using m0 by (simp add: chunk_size_def pos_imp_zdiv_nonneg_iff)
  have "(if int (length content) < n then int (length content) else n) = ?m" by simp
  then have "get_random_sample_body fs file_path n g = (Inr (concat chunks), g')"
    using assms(1) r(1) by (simp add: get_random_sample_body_def Let_def)
  with r k show ?thesis by auto
qed

lemma get_random_sample_miss:
  assumes "cache_miss cache now"
    and "get_random_sample_body fs file_path n g = (Inr v, g')"
  shows "get_random_sample fs file_path now n (cache, g)
         = (Inr v, cache(''get_random_sample'' \<mapsto> (v, now)), g')"
  using assms by (auto simp: get_random_sample_def cache_miss_def split: option.splits)

text \<open>A value in the cache that is at most 60 seconds old is returned for any size.\<close>

lemma get_random_sample_hit:
  assumes "cache ''get_random_sample'' = Some (v, t)" and "now - t \<le> 60"
  shows "get_random_sample fs file_path now n (cache, g) = (Inr v, cache, g)"
  using assms by (simp add: get_random_sample_def)

text \<open>
  In a file of at least one chunk, the chunks drawn are the ones at the offsets that the
  random numbers give, each between 0 and the size of the file less one chunk.
\<close>

lemma random_chunks_at_offsets:
  assumes "chunk_size \<le> length content"
  shows "random_chunks k content g
         = Inr (map (\<lambda>i. take chunk_size
                         (drop (g i mod (length content - chunk_size + 1)) content)) [0 ..< k],
                \<lambda>i. g (i + k))"
proof (induction k arbitrary: g)
  case 0
  show ?case by simp
next
  case (Suc k)
  let ?m = "length content - chunk_size + 1"
  have m: "int (length content) - int chunk_size + 1 = int ?m"
    using assms by simp
  have "randint 0 (int (length content) - int chunk_size) (g 0) = Inr (int (g 0 mod ?m))"
    using assms by (simp add: randint_def m zmod_int)
  moreover have "read_at content (int (g 0 mod ?m)) = Inr (take chunk_size (drop (g 0 mod ?m) content))"
    by (simp add: read_at_def)
  ultimately show ?case
    using Suc.IH [of "\<lambda>i. g (Suc i)"] by (simp add: map_upt_Suc del: upt_Suc)
qed

lemma get_random_sample_body_at_offsets:
  assumes "fs file_path = Some content" and "chunk_size \<le> length content"
  shows "fst (get_random_sample_body fs file_path n g)
         = Inr (concat (map (\<lambda>i. take chunk_size
                                 (drop (g i mod (length content - chunk_size + 1)) content))
                          [0 ..< nat (min n (int (length content)) div int chunk_size)]))"
proof -
  have "(if int (length content) < n then int (length content) else n)
        = min n (int (length content))" by simp
  then show ?thesis
    using assms(1) random_chunks_at_offsets [OF assms(2)]
    by (simp add: get_random_sample_body_def Let_def)
qed

lemma get_random_sample_bounded:
  assumes "fs file_path = Some content" and "0 \<le> n" and "cache_miss cache now"
  shows "\<exists>s. fst (get_random_sample fs file_path now n (cache, g)) = Inr s
             \<and> int (length s) \<le> n"
proof -
  from get_random_sample_body_ok [of fs file_path content n g] assms(1,2) obtain chunks g' where
    b: "get_random_sample_body fs file_path n g = (Inr (concat chunks), g')"
       "list_all (is_chunk_of content) chunks"
       "int (length chunks) = min n (int (length content)) div int chunk_size" by blast
  define m where "m = min n (int (length content))"
  have len: "int (length (concat chunks)) = int chunk_size * (m div int chunk_size)"
    using length_concat_chunks [OF b(2)] b(3) by (simp add: m_def)
  have "int chunk_size * (m div int chunk_size) \<le> m"
    by (simp add: chunk_size_def)
  moreover have "m \<le> n"
    by (simp add: m_def)
  ultimately have "int (length (concat chunks)) \<le> n"
    using len by linarith
  then show ?thesis
    using get_random_sample_miss [OF assms(3) b(1)] by auto
qed

text \<open>
  Claim C4 says that \<open>get_random_sample(n)\<close> returns at most \<open>n\<close> bytes, and the whole
  content of a file that is smaller than \<open>n\<close>. What holds, for a file that exists, a
  size \<open>n\<close> that is not negative and a call that reads the file: the sample has at most
  \<open>n\<close> bytes; and when the file has at least 4096 bytes, the sample is the concatenation
  of exactly \<open>min(n, size) // 4096\<close> chunks, each the 4096 bytes of the file at an offset
  drawn at random between 0 and the size less 4096. A file of 5000 bytes sampled with
  \<open>n = 16184\<close> gives one chunk of 4096 bytes, not the file
  (\<open>get_random_sample_not_whole_file\<close>). What a file of fewer than 4096 bytes gives is
  not part of the statement.
\<close>

theorem get_random_sample_chunks:
  assumes "fs file_path = Some content" and "0 \<le> n" and "cache_miss cache now"
  shows "(\<exists>s. fst (get_random_sample fs file_path now n (cache, g)) = Inr s
              \<and> int (length s) \<le> n)
         \<and> (chunk_size \<le> length content \<longrightarrow>
              fst (get_random_sample fs file_path now n (cache, g))
              = Inr (concat (map (\<lambda>i. take chunk_size
                                      (drop (g i mod (length content - chunk_size + 1)) content))
                               [0 ..< nat (min n (int (length content)) div int chunk_size)])))"
proof (intro conjI impI)
  show "\<exists>s. fst (get_random_sample fs file_path now n (cache, g)) = Inr s \<and> int (length s) \<le> n"
    using assms by (rule get_random_sample_bounded)
next
  assume big: "chunk_size \<le> length content"
  obtain v g' where b: "get_random_sample_body fs file_path n g = (v, g')"
    by (cases "get_random_sample_body fs file_path n g")
  with get_random_sample_body_at_offsets [of fs file_path content n g] assms(1) big
  have v: "v = Inr (concat (map (\<lambda>i. take chunk_size
                                 (drop (g i mod (length content - chunk_size + 1)) content))
                          [0 ..< nat (min n (int (length content)) div int chunk_size)]))"
    by simp
  show "fst (get_random_sample fs file_path now n (cache, g))
        = Inr (concat (map (\<lambda>i. take chunk_size
                                (drop (g i mod (length content - chunk_size + 1)) content))
                         [0 ..< nat (min n (int (length content)) div int chunk_size)]))"
    using get_random_sample_miss [OF assms(3) b [unfolded v]] by simp
qed

theorem get_random_sample_chunks_witness:
  "[''data.csv'' \<mapsto> ''ab'' @ replicate 4998 (CHR ''x'')] ''data.csv''
     = Some (''ab'' @ replicate 4998 (CHR ''x''))
   \<and> (0::int) \<le> 16184 \<and> cache_miss Map.empty 0
   \<and> chunk_size \<le> length (''ab'' @ replicate 4998 (CHR ''x''))
   \<and> fst (get_random_sample [''data.csv'' \<mapsto> ''ab'' @ replicate 4998 (CHR ''x'')] ''data.csv''
            0 16184 (Map.empty, \<lambda>i. 906))
      = Inr (CHR ''b'' # replicate 4095 (CHR ''x''))"
  using get_random_sample_chunks [of "[''data.csv'' \<mapsto> ''ab'' @ replicate 4998 (CHR ''x'')]"
      "''data.csv''" "''ab'' @ replicate 4998 (CHR ''x'')" 16184 Map.empty 0 "\<lambda>i. 906"]
  by (simp add: cache_miss_def chunk_size_def)

text \<open>A file shorter than one chunk gives the empty sample.\<close>

lemma small_content: "n < chunk_size \<Longrightarrow>
  fst (get_random_sample [p \<mapsto> replicate n c] p now 16184 (Map.empty, g)) = Inr []"
  by (simp add: get_random_sample_def get_random_sample_body_def chunk_size_def Let_def)

theorem get_random_sample_not_whole_file:
  "int (length (replicate 5000 (CHR ''x''))) < 16184
   \<and> fst (get_random_sample [''data.csv'' \<mapsto> replicate 5000 (CHR ''x'')] ''data.csv'' 0 16184
        (Map.empty, \<lambda>i. 0)) = Inr (replicate 4096 (CHR ''x''))
   \<and> fst (get_random_sample [''data.csv'' \<mapsto> replicate 5000 (CHR ''x'')] ''data.csv'' 0 16184
        (Map.empty, \<lambda>i. 0)) \<noteq> Inr (replicate 5000 (CHR ''x''))"
  by (simp add: get_random_sample_def get_random_sample_body_def chunk_size_def Let_def
      randint_def read_at_def)

section \<open>The retries of the encoding inference\<close>

lemma attempt_returns:
  assumes "attempt decode detect smp = Returns enc"
  shows "\<exists>candidates. candidates_of decode smp = Inr candidates \<and> enc \<in> set candidates
           \<and> Encoding_get (detect smp) = Some enc"
  using assms by (auto simp: attempt_def split: sum.splits option.splits if_splits)

lemma infer_encoding_loop_returns:
  assumes "fst (infer_encoding_loop decode detect grs B is smp w) = Inr enc"
  shows "\<exists>s. attempt decode detect s = Returns enc"
  using assms
proof (induction "is" arbitrary: smp w)
  case Nil
  then show ?case by simp
next
  case (Cons i "is")
  show ?case
  proof (cases "attempt decode detect smp")
    case (Returns e)
    with Cons.prems show ?thesis by auto
  next
    case (Attempt_raises e)
    with Cons.prems show ?thesis by simp
  next
    case Fails
    obtain r w' where g: "grs (B * i) w = (r, w')" by (cases "grs (B * i) w")
    show ?thesis
    proof (cases r)
      case (Inl e)
      with Cons.prems Fails g show ?thesis by simp
    next
      case (Inr smp')
      with Cons.prems Fails g
      have "fst (infer_encoding_loop decode detect grs B is smp' w') = Inr enc" by simp
      then show ?thesis by (rule Cons.IH)
    qed
  qed
qed

text \<open>
  An encoding that \<open>infer_encoding\<close> returns is the guess for some sample and decodes
  that sample.
\<close>

lemma infer_encoding_returns_candidate:
  assumes "fst (infer_encoding decode detect grs B smp w) = Inr enc"
  shows "\<exists>s candidates. candidates_of decode s = Inr candidates \<and> enc \<in> set candidates
           \<and> Encoding_get (detect s) = Some enc"
  using infer_encoding_loop_returns [of decode detect grs B "[0, 1, 2, 3, 4]" smp w enc]
    assms attempt_returns [of decode detect _ enc]
  unfolding infer_encoding_def by blast

lemma infer_encoding_loop_all_fail:
  assumes "\<forall>n. attempt decode detect (f n) = Fails" and "attempt decode detect smp = Fails"
  shows "infer_encoding_loop decode detect (recording_sampler f) B is smp requested
         = (Inl EncodingException, (if is = [] then smp else f (B * last is)),
            requested @ map (\<lambda>i. B * i) is)"
  using assms(2)
proof (induction "is" arbitrary: smp requested)
  case Nil
  show ?case by simp
next
  case (Cons i "is")
  have "attempt decode detect (f (B * i)) = Fails" using assms(1) by simp
  from Cons.IH [OF this, of "requested @ [B * i]"] Cons.prems
  show ?case by (simp add: recording_sampler_def)
qed

text \<open>
  Claim C5 says that \<open>infer_encoding\<close> makes at most five attempts, that a failed attempt
  replaces the sample with a fresh, larger random sample of \<open>BYTES_TO_ANALYZE\<close> times the
  index of the attempt bytes, that five failed attempts raise \<open>EncodingException\<close>, and
  that an encoding returned is a candidate of the attempt that returns it. Five failed
  attempts do raise \<open>EncodingException\<close>, and an encoding returned is a candidate
  (\<open>infer_encoding_returns_candidate\<close>). The index runs from 0, though: when every
  attempt fails, the sizes asked for are 0, \<open>B\<close>, \<open>2B\<close>, \<open>3B\<close> and \<open>4B\<close>, the last one
  after the last attempt. The sample read after the first failed attempt is empty
  (\<open>file_sampler_zero\<close>), and the one after the second is asked for with the size of the
  initial one; while the cache of the file holds a sample, that sample is returned again
  (\<open>file_sampler_hit\<close>).
\<close>

theorem infer_encoding_requested_sizes:
  assumes "\<forall>n. attempt decode detect (f n) = Fails" and "attempt decode detect smp = Fails"
  shows "infer_encoding decode detect (recording_sampler f) B smp []
         = (Inl EncodingException, f (B * 4), [B * 0, B * 1, B * 2, B * 3, B * 4])"
  using infer_encoding_loop_all_fail [OF assms, of B "[0, 1, 2, 3, 4]" "[]"]
  by (simp add: infer_encoding_def)

lemma attempt_no_guess: "attempt (\<lambda>e s. Decodes) (\<lambda>s. None) smp = Fails"
  by (simp add: attempt_def candidates_of_def all_encodings_def Encoding_get_def)

theorem infer_encoding_requested_sizes_witness:
  "(\<forall>n. attempt (\<lambda>e s. Decodes) (\<lambda>s. None) (replicate (nat n) (CHR ''x'')) = Fails)
   \<and> attempt (\<lambda>e s. Decodes) (\<lambda>s. None) (replicate 12288 (CHR ''x'')) = Fails
   \<and> infer_encoding (\<lambda>e s. Decodes) (\<lambda>s. None)
        (recording_sampler (\<lambda>n. replicate (nat n) (CHR ''x''))) 16184
        (replicate 12288 (CHR ''x'')) []
      = (Inl EncodingException, replicate 64736 (CHR ''x''), [0, 16184, 32368, 48552, 64736])"
  using infer_encoding_requested_sizes [of "\<lambda>e s. Decodes" "\<lambda>s. None"
      "\<lambda>n. replicate (nat n) (CHR ''x'')" "replicate 12288 (CHR ''x'')" 16184]
  by (simp add: attempt_no_guess)

lemma file_sampler_zero:
  assumes "fs file_path = Some content" and "cache_miss cache now"
  shows "fst (file_sampler fs file_path now (B * 0) (cache, g)) = Inr []"
  using assms
  by (auto simp: file_sampler_def get_random_sample_def get_random_sample_body_def
      cache_miss_def Let_def chunk_size_def split: option.splits)

lemma file_sampler_hit:
  assumes "cache ''get_random_sample'' = Some (v, t)" and "now - t \<le> 60"
  shows "file_sampler fs file_path now n (cache, g) = (Inr v, (cache, g))"
  using assms by (simp add: file_sampler_def get_random_sample_hit)

section \<open>The rule of the header\<close>

text \<open>The order of the conversions: integer, then float, then the date formats, then string.\<close>

lemma get_data_type_order:
  "get_data_type cv field =
     (if int_ok cv field then T_int
      else if float_ok cv field then T_float
      else if (\<exists>form \<in> set formats. strptime_ok cv field form) then T_datetime
      else T_str)"
  by (simp add: get_data_type_def list_ex_iff)

lemma get_data_type_int_first: "int_ok cv field \<Longrightarrow> get_data_type cv field = T_int"
  by (simp add: get_data_type_def)

lemma get_data_type_float_second:
  "\<not> int_ok cv field \<Longrightarrow> float_ok cv field \<Longrightarrow> get_data_type cv field = T_float"
  by (simp add: get_data_type_def)

lemma drain_rows: "drain cv (map Row rows) = Inr (map (map (get_data_type cv)) rows)"
  by (induction rows) simp_all

lemma differing_count:
  assumes "checks \<noteq> []" and "\<forall>i \<in> set is. i < length (checks ! 0)"
  shows "differing ft checks is = Inr (length (filter (\<lambda>i. ft ! i \<noteq> checks ! 0 ! i) is))"
  using assms(2)
proof (induction "is")
  case Nil
  show ?case by simp
next
  case (Cons i "is")
  then show ?case using assms(1) by (simp add: checks_lookup_def)
qed

lemma infer_header_typed_first_row:
  assumes "\<not> list_all (\<lambda>field. get_data_type cv field = T_str) first_row"
  shows "infer_header cv (Row first_row # reader) = Inr Header_FALSE"
  using assms by (simp add: infer_header_def list.pred_map comp_def)

text \<open>An exception of the reader on a row after the first leaves \<open>infer_header\<close>.\<close>

lemma infer_header_reader_raises:
  assumes "list_all (\<lambda>field. get_data_type cv field = T_str) first_row"
    and "drain cv reader = Inl e"
  shows "infer_header cv (Row first_row # reader) = Inl e"
  using assms by (simp add: infer_header_def list.pred_map comp_def)

text \<open>
  Where the reader yields all its rows, the first row is a row of strings and not
  empty, and the second row has at least as many fields, the rule of the specification
  holds.
\<close>

lemma infer_header_string_first_row:
  assumes "list_all (\<lambda>field. get_data_type cv field = T_str) first_row"
    and "first_row \<noteq> []" and "length first_row \<le> length second_row"
  shows "infer_header cv (Row first_row # Row second_row # map Row more_rows) =
     Inr (if 1 / 10 < mismatch_fraction (map (get_data_type cv) first_row)
                        (map (get_data_type cv) second_row)
            then Header_TRUE
          else Header_FALSE)"
proof -
  let ?ft = "map (get_data_type cv) first_row"
  let ?checks = "map (map (get_data_type cv)) (second_row # more_rows)"
  have d: "drain cv (Row second_row # map Row more_rows) = Inr ?checks"
    using drain_rows [of cv "second_row # more_rows"] by simp
  have "differing ?ft ?checks [0 ..< length ?ft]
        = Inr (length (filter (\<lambda>i. ?ft ! i \<noteq> ?checks ! 0 ! i) [0 ..< length ?ft]))"
    by (rule differing_count) (use assms(3) in auto)
  then show ?thesis
    using assms(1,2) d
    by (simp add: infer_header_def mismatch_fraction_def list.pred_map comp_def
        del: drain.simps)
qed

text \<open>
  Rows of one type in each column: where the second row has, in each column of the first
  row, the type the first row has there, no header is inferred.
\<close>

lemma infer_header_uniform:
  assumes "first_row \<noteq> []" and "length first_row \<le> length second_row"
    and "\<forall>i < length first_row.
           get_data_type cv (first_row ! i) = get_data_type cv (second_row ! i)"
  shows "infer_header cv (Row first_row # Row second_row # map Row more_rows) = Inr Header_FALSE"
proof (cases "list_all (\<lambda>field. get_data_type cv field = T_str) first_row")
  case False
  then show ?thesis by (rule infer_header_typed_first_row)
next
  case True
  have "filter (\<lambda>i. map (get_data_type cv) first_row ! i \<noteq> map (get_data_type cv) second_row ! i)
          [0 ..< length (map (get_data_type cv) first_row)] = []"
    using assms(2,3) by (auto simp: filter_empty_conv)
  then have "mismatch_fraction (map (get_data_type cv) first_row)
               (map (get_data_type cv) second_row) = 0"
    by (simp add: mismatch_fraction_def)
  then show ?thesis
    using infer_header_string_first_row [OF True assms(1,2), of more_rows] by simp
qed

lemma example_fields:
  "get_data_type digit_conversions ''Name'' = T_str"
  "get_data_type digit_conversions ''Age'' = T_str"
  "get_data_type digit_conversions ''Alice'' = T_str"
  "get_data_type digit_conversions ''Bob'' = T_str"
  "get_data_type digit_conversions ''34'' = T_int"
  "get_data_type digit_conversions ''27'' = T_int"
  by (simp_all add: get_data_type_def digit_conversions_def formats_def)

text \<open>The examples of the specification: a header over ten rows of data, and rows of strings.\<close>

lemma infer_header_examples:
  "infer_header digit_conversions
     (Row [''Name'', ''Age''] # Row [''Alice'', ''34''] # map Row (replicate 9 [''Bob'', ''27'']))
   = Inr Header_TRUE
   \<and> infer_header digit_conversions
       (Row [''Alice'', ''Bob''] # Row [''Bob'', ''Alice''] # map Row (replicate 9 [''Alice'', ''Bob'']))
     = Inr Header_FALSE"
  using infer_header_string_first_row [of digit_conversions "[''Name'', ''Age'']"
      "[''Alice'', ''34'']" "replicate 9 [''Bob'', ''27'']"]
    infer_header_string_first_row [of digit_conversions "[''Alice'', ''Bob'']"
      "[''Bob'', ''Alice'']" "replicate 9 [''Alice'', ''Bob'']"]
  by (simp add: example_fields mismatch_fraction_def upt_rec)

text \<open>
  Claim C6 says that \<open>infer_header\<close> returns "no header" if not every field of the first
  row is classified as a string, and otherwise "header present" exactly when the
  fraction of the column positions of the first row at which its type differs from the
  type of the second row exceeds 10 percent, and "no header" otherwise. Where there is
  a second row that is wide enough the code does so (\<open>infer_header_typed_first_row\<close>,
  \<open>infer_header_string_first_row\<close>, \<open>infer_header_uniform\<close>, \<open>infer_header_examples\<close>).
  But \<open>checks[0][i]\<close> and the division are not guarded: a sample of one row of strings,
  where no position differs and the claim has "no header", raises \<open>KeyError\<close>; so does
  a second row with fewer fields than the first; and an empty first row raises
  \<open>ZeroDivisionError\<close>.
\<close>

theorem infer_header_degenerate_rows_raise:
  "infer_header digit_conversions [Row [''Name'', ''Age'']] = Inl KeyError
   \<and> infer_header digit_conversions [Row [''Name'', ''Age''], Row [''Alice'']] = Inl KeyError
   \<and> infer_header digit_conversions [Row [], Row [''Alice'', ''34'']] = Inl ZeroDivisionError"
  by (simp add: infer_header_def example_fields checks_lookup_def upt_rec)

end
